theory Spec2Isabelle
  imports Main "HOL-Library.Word"
begin

section \<open>Raster images\<close>

text \<open>
  The data model of the preview service has two pixel formats: 8-bit greyscale (Pillow mode
  \<open>L\<close>) and 24-bit colour (mode \<open>RGB\<close>). A raster is a list of rows, top row first; the
  size is kept beside it, as Pillow keeps \<open>img.size\<close>.
\<close>

type_synonym byte = "8 word"

datatype raster = LData "byte list list" | RGBData "(byte \<times> byte \<times> byte) list list"

record image =
  width :: nat
  height :: nat
  px :: raster

fun mode :: "raster \<Rightarrow> string" where
  "mode (LData _) = ''L''"
| "mode (RGBData _) = ''RGB''"

definition rect :: "nat \<Rightarrow> nat \<Rightarrow> 'a list list \<Rightarrow> bool" where
  "rect w h rows = (length rows = h \<and> list_all (\<lambda>r. length r = w) rows)"

definition well_formed :: "image \<Rightarrow> bool" where
  "well_formed img =
     (case px img of LData rows \<Rightarrow> rect (width img) (height img) rows
                   | RGBData rows \<Rightarrow> rect (width img) (height img) rows)"

definition size_of :: "image \<Rightarrow> nat \<times> nat" where
  "size_of img = (width img, height img)"

subsection \<open>Colour reduction: \<open>img.convert("L")\<close>\<close>

text \<open>
  Pillow returns a copy when the image already has the requested mode; an RGB pixel becomes
  its ITU-R 601-2 luma, computed in 16-bit fixed point and rounded.
\<close>

definition luma :: "byte \<times> byte \<times> byte \<Rightarrow> byte" where
  "luma p = (case p of (r, g, b) \<Rightarrow>
     word_of_nat ((unat r * 19595 + unat g * 38470 + unat b * 7471 + 32768) div 65536))"

definition convert_L :: "image \<Rightarrow> image" where
  "convert_L img =
     (case px img of
        LData rows \<Rightarrow> img
      | RGBData rows \<Rightarrow> img\<lparr>px := LData (map (map luma) rows)\<rparr>)"

subsection \<open>Orientation: \<open>img.rotate(90, expand=True)\<close>\<close>

text \<open>
  With an angle of 90 and \<open>expand\<close> set Pillow takes its exact path, the transposition
  \<open>ROTATE_90\<close>: the pixel at column \<open>x\<close>, row \<open>y\<close> of a \<open>w\<close> by \<open>h\<close> image moves to
  column \<open>y\<close>, row \<open>w - 1 - x\<close> of an \<open>h\<close> by \<open>w\<close> image (a quarter turn counter-clockwise).
\<close>

definition turn_rows :: "nat \<Rightarrow> nat \<Rightarrow> 'a list list \<Rightarrow> 'a list list" where
  "turn_rows w h rows =
     map (\<lambda>y'. map (\<lambda>x'. rows ! x' ! (w - 1 - y')) [0..<h]) [0..<w]"

definition rotate_90_expand :: "image \<Rightarrow> image" where
  "rotate_90_expand img =
     (let w = width img; h = height img in
      \<lparr>width = h, height = w,
       px = (case px img of
               LData rows \<Rightarrow> LData (turn_rows w h rows)
             | RGBData rows \<Rightarrow> RGBData (turn_rows w h rows))\<rparr>)"

definition pixel_at :: "image \<Rightarrow> nat \<Rightarrow> nat \<Rightarrow> byte list" where
  "pixel_at img x y =
     (case px img of
        LData rows \<Rightarrow> [rows ! y ! x]
      | RGBData rows \<Rightarrow> (case rows ! y ! x of (r, g, b) \<Rightarrow> [r, g, b]))"

subsection \<open>Drawing: \<open>ImageDraw.Draw(img)\<close>\<close>

text \<open>
  The two drawing calls of the program. Coordinates are Python integers. The bounding box
  of an ellipse is \<open>(x0, y0, x1, y1)\<close>.
\<close>

type_synonym point = "int \<times> int"
type_synonym box = "int \<times> int \<times> int \<times> int"

datatype pil_call =
    Convert string
  | Rotate int bool
  | Ellipse box string
  | Polygon "point list" string

text \<open>
  Which pixels a filled shape covers is decided by Pillow's scan conversion, which is not
  part of this program: it is a parameter \<open>scan\<close> of everything that draws, and \<open>scan c x y\<close>
  says that the filled shape of the call \<open>c\<close> covers the pixel at column \<open>x\<close>, row \<open>y\<close>.
  Drawing with an opaque fill sets the covered pixels of the image to the fill colour and
  leaves the others; pixels the shape would cover outside the image are dropped.
\<close>

type_synonym scan_conversion = "pil_call \<Rightarrow> int \<Rightarrow> int \<Rightarrow> bool"

definition paint_rows :: "(int \<Rightarrow> int \<Rightarrow> bool) \<Rightarrow> 'a \<Rightarrow> 'a list list \<Rightarrow> 'a list list" where
  "paint_rows hit c rows =
     map (\<lambda>(y, row). map (\<lambda>(x, p). if hit (int x) (int y) then c else p)
                          (zip [0..<length row] row))
         (zip [0..<length rows] rows)"

text \<open>The colour name \<open>grey\<close> is \<open>#808080\<close>: 128 in mode \<open>L\<close>, (128, 128, 128) in \<open>RGB\<close>.\<close>

definition paint :: "scan_conversion \<Rightarrow> pil_call \<Rightarrow> image \<Rightarrow> image" where
  "paint scan shape img =
     (case px img of
        LData rows \<Rightarrow> img\<lparr>px := LData (paint_rows (scan shape) 128 rows)\<rparr>
      | RGBData rows \<Rightarrow> img\<lparr>px := RGBData (paint_rows (scan shape) (128, 128, 128) rows)\<rparr>)"

fun grey_of :: "raster \<Rightarrow> byte list" where
  "grey_of (LData _) = [128]"
| "grey_of (RGBData _) = [128, 128, 128]"

section \<open>The annotator: the body of \<open>process_image\<close>\<close>

text \<open>
  The state threaded through \<open>process_image\<close> is the image object together with the
  Pillow calls made on it so far, oldest first. Every primitive applies its call to the
  image and appends it to that record.
\<close>

type_synonym canvas = "image \<times> pil_call list"

definition convert :: "string \<Rightarrow> canvas \<Rightarrow> canvas" where
  "convert m s = (convert_L (fst s), snd s @ [Convert m])"

definition rotate :: "int \<Rightarrow> bool \<Rightarrow> canvas \<Rightarrow> canvas" where
  "rotate angle expand s = (rotate_90_expand (fst s), snd s @ [Rotate angle expand])"

definition ellipse :: "scan_conversion \<Rightarrow> box \<Rightarrow> string \<Rightarrow> canvas \<Rightarrow> canvas" where
  "ellipse scan b fill s = (paint scan (Ellipse b fill) (fst s), snd s @ [Ellipse b fill])"

definition polygon :: "scan_conversion \<Rightarrow> point list \<Rightarrow> string \<Rightarrow> canvas \<Rightarrow> canvas" where
  "polygon scan ps fill s = (paint scan (Polygon ps fill) (fst s), snd s @ [Polygon ps fill])"

definition staple_coords :: "point list" where
  "staple_coords = [(35, 40), (75, 30), (77, 35), (37, 45)]"

definition annotate ::
  "scan_conversion \<Rightarrow> image \<Rightarrow> string \<Rightarrow> string \<Rightarrow> string \<Rightarrow> string \<Rightarrow> canvas" where
  "annotate scan img0 copy_color orientation paper_punch paper_binding =
     (let s0 = (img0, []);
          s1 = (if copy_color = ''black_and_white'' then convert ''L'' s0 else s0);
          s2 = (if orientation = ''landscape'' then rotate 90 True s1 else s1);
          height = int (height (fst s2));
          s3 = (if paper_punch = ''two_holes'' then
                  ellipse scan (10, 2 * height div 3 - 10, 30, 2 * height div 3 + 10) ''grey''
                    (ellipse scan (10, height div 3 - 10, 30, height div 3 + 10) ''grey'' s2)
                else if paper_punch = ''three_holes'' then
                  ellipse scan (10, 3 * height div 4 - 10, 30, 3 * height div 4 + 10) ''grey''
                    (ellipse scan (10, height div 2 - 10, 30, height div 2 + 10) ''grey''
                      (ellipse scan (10, height div 4 - 10, 30, height div 4 + 10) ''grey'' s2))
                else s2);
          s4 = (if paper_binding = ''corner_staple'' then polygon scan staple_coords ''grey'' s3
                else s3)
      in s4)"

subsection \<open>What the annotator does, step by step\<close>

text \<open>
  The calls each of the four steps contributes, written from the description of the
  pipeline: colour reduction, orientation, punch marks around given centres, binding mark.
  A filled circle is drawn through the ellipse call on the square box around its centre.
\<close>

definition circle_box :: "int \<Rightarrow> int \<Rightarrow> int \<Rightarrow> box" where
  "circle_box cx cy r = (cx - r, cy - r, cx + r, cy + r)"

definition color_calls :: "string \<Rightarrow> pil_call list" where
  "color_calls copy_color = (if copy_color = ''black_and_white'' then [Convert ''L''] else [])"

definition orientation_calls :: "string \<Rightarrow> pil_call list" where
  "orientation_calls orientation = (if orientation = ''landscape'' then [Rotate 90 True] else [])"

definition punch_marks :: "int \<Rightarrow> string \<Rightarrow> pil_call list" where
  "punch_marks h paper_punch =
     (if paper_punch = ''two_holes'' then
        [Ellipse (circle_box 20 (h div 3) 10) ''grey'',
         Ellipse (circle_box 20 (2 * h div 3) 10) ''grey'']
      else if paper_punch = ''three_holes'' then
        [Ellipse (circle_box 20 (h div 4) 10) ''grey'',
         Ellipse (circle_box 20 (h div 2) 10) ''grey'',
         Ellipse (circle_box 20 (3 * h div 4) 10) ''grey'']
      else [])"

definition binding_calls :: "string \<Rightarrow> pil_call list" where
  "binding_calls paper_binding =
     (if paper_binding = ''corner_staple'' then [Polygon staple_coords ''grey''] else [])"

fun apply_call :: "scan_conversion \<Rightarrow> pil_call \<Rightarrow> image \<Rightarrow> image" where
  "apply_call scan (Convert _) img = convert_L img"
| "apply_call scan (Rotate _ _) img = rotate_90_expand img"
| "apply_call scan c img = paint scan c img"

definition final_height :: "image \<Rightarrow> string \<Rightarrow> nat" where
  "final_height img orientation = (if orientation = ''landscape'' then width img else height img)"

fun is_ellipse :: "pil_call \<Rightarrow> bool" where
  "is_ellipse (Ellipse _ _) = True"
| "is_ellipse _ = False"

fun is_polygon :: "pil_call \<Rightarrow> bool" where
  "is_polygon (Polygon _ _) = True"
| "is_polygon _ = False"

definition is_shape :: "pil_call \<Rightarrow> bool" where
  "is_shape c = (is_ellipse c \<or> is_polygon c)"

text \<open>A call whose coordinates all name pixels of the image.\<close>

fun call_in_image :: "image \<Rightarrow> pil_call \<Rightarrow> bool" where
  "call_in_image img (Ellipse (x0, y0, x1, y1) _) =
     (0 \<le> x0 \<and> 0 \<le> y0 \<and> x1 < int (width img) \<and> y1 < int (height img))"
| "call_in_image img (Polygon ps _) =
     list_all (\<lambda>(x, y). 0 \<le> x \<and> x < int (width img) \<and> 0 \<le> y \<and> y < int (height img)) ps"
| "call_in_image img _ = True"

subsection \<open>Examples to run the annotator on\<close>

text \<open>
  A white greyscale sheet and a colour swatch, and one scan conversion for the examples:
  the disc or ellipse inscribed in the box, border included, and for a polygon the points
  that lie on the same side of every edge, border included. It is used in examples only;
  every theorem about the annotator holds for all scan conversions.
\<close>

definition sheet :: "nat \<Rightarrow> nat \<Rightarrow> image" where
  "sheet w h = \<lparr>width = w, height = h, px = LData (replicate h (replicate w 255))\<rparr>"

definition swatch :: image where
  "swatch = \<lparr>width = 2, height = 3,
     px = RGBData [[(255, 0, 0), (0, 255, 0)], [(0, 0, 255), (9, 9, 9)], [(1, 2, 3), (70, 80, 90)]]\<rparr>"

definition in_ellipse :: "box \<Rightarrow> int \<Rightarrow> int \<Rightarrow> bool" where
  "in_ellipse b x y = (case b of (x0, y0, x1, y1) \<Rightarrow>
     x0 \<le> x \<and> x \<le> x1 \<and> y0 \<le> y \<and> y \<le> y1 \<and>
     (2 * x - (x0 + x1))\<^sup>2 * (y1 - y0)\<^sup>2 + (2 * y - (y0 + y1))\<^sup>2 * (x1 - x0)\<^sup>2
       \<le> (x1 - x0)\<^sup>2 * (y1 - y0)\<^sup>2)"

definition side :: "point \<Rightarrow> point \<Rightarrow> int \<Rightarrow> int \<Rightarrow> int" where
  "side p q x y = (case (p, q) of ((x1, y1), (x2, y2)) \<Rightarrow>
     (x2 - x1) * (y - y1) - (y2 - y1) * (x - x1))"

fun edges :: "point list \<Rightarrow> (point \<times> point) list" where
  "edges [] = []"
| "edges (p # ps) = zip (p # ps) (ps @ [p])"

definition in_convex :: "point list \<Rightarrow> int \<Rightarrow> int \<Rightarrow> bool" where
  "in_convex ps x y =
     (ps \<noteq> [] \<and>
      (list_all (\<lambda>(p, q). 0 \<le> side p q x y) (edges ps) \<or>
       list_all (\<lambda>(p, q). side p q x y \<le> 0) (edges ps)))"

fun solid :: scan_conversion where
  "solid (Ellipse b _) x y = in_ellipse b x y"
| "solid (Polygon ps _) x y = in_convex ps x y"
| "solid _ x y = False"

section \<open>Paths and the file store\<close>

text \<open>
  File names are strings of 8-bit characters; \<open>str.lower\<close> acts on the ASCII letters,
  which is all the extension tests below can tell apart. \<open>split_on\<close> is \<open>str.split\<close>
  with a separator: it always returns at least one piece.
\<close>

definition lower_char :: "char \<Rightarrow> char" where
  "lower_char c =
     (let n = (of_char c :: nat) in if 65 \<le> n \<and> n \<le> 90 then char_of (n + 32) else c)"

definition lower :: "string \<Rightarrow> string" where
  "lower s = map lower_char s"

fun split_on :: "char \<Rightarrow> string \<Rightarrow> string list" where
  "split_on sep [] = [[]]"
| "split_on sep (c # cs) =
     (if c = sep then [] # split_on sep cs
      else (case split_on sep cs of [] \<Rightarrow> [[c]] | w # ws \<Rightarrow> (c # w) # ws))"

fun digits :: "nat \<Rightarrow> string" where
  "digits n = (if n < 10 then [char_of (48 + n)] else digits (n div 10) @ [char_of (48 + n mod 10)])"

declare digits.simps [simp del]

definition UPLOAD_FOLDER :: string where
  "UPLOAD_FOLDER = ''uploaded_files''"

definition IMAGE_FOLDER :: string where
  "IMAGE_FOLDER = ''pdf_images''"

text \<open>
  A file is kept by what its readers make of it: a picture Pillow decodes, a PDF with the
  pages PyMuPDF renders at 150 dpi, a document Word opens or a presentation PowerPoint
  opens (with the pages of its PDF export), or bytes none of them reads. Writing a picture
  and reading it back returns the picture: the loss of JPEG coding is left out. The store
  maps a path to its file.
\<close>

datatype content =
    Picture image
  | Pdf "image list"
  | Document "image list"
  | Presentation "image list"
  | Blob "byte list"

type_synonym store = "string \<rightharpoonup> content"

datatype error =
    RuntimeError
  | OSError
  | SameFileError
  | FileNotFoundError
  | UnidentifiedImageError
  | FileDataError
  | ValueError

datatype response = HTMLResponse string | Preview "string list"

record UploadFile =
  filename :: string
  file_data :: content

subsection \<open>The platform\<close>

text \<open>
  What the program takes from the platform it runs on, none of it part of the program:
  the three functions of \<open>os.path\<close> it calls, whether the operating system lets it create
  or truncate a file under a path (the folder exists, the path does not name a folder,
  the process is permitted), and Pillow's scan conversion. The folders do not change
  while a request is handled, so \<open>can_write\<close> depends on the path alone.
\<close>

record platform =
  os_path_join :: "string \<Rightarrow> string \<Rightarrow> string"
  os_path_basename :: "string \<Rightarrow> string"
  os_path_splitext :: "string \<Rightarrow> string \<times> string"
  can_write :: "string \<Rightarrow> bool"
  scan_of :: scan_conversion

subsection \<open>Library calls on the store\<close>

text \<open>
  Opening a file for writing raises \<open>OSError\<close> (as \<open>FileNotFoundError\<close>,
  \<open>IsADirectoryError\<close> or \<open>PermissionError\<close>) when the file cannot be created, and
  nothing is written then.
\<close>

definition write_file :: "platform \<Rightarrow> store \<Rightarrow> string \<Rightarrow> content \<Rightarrow> error + store" where
  "write_file os fs path c = (if can_write os path then Inr (fs(path \<mapsto> c)) else Inl OSError)"

definition Image_open :: "store \<Rightarrow> string \<Rightarrow> error + image" where
  "Image_open fs path =
     (case fs path of
        None \<Rightarrow> Inl FileNotFoundError
      | Some (Picture img) \<Rightarrow> Inr img
      | Some _ \<Rightarrow> Inl UnidentifiedImageError)"

text \<open>
  \<open>img.save\<close> picks the format from the extension and raises before opening the file
  when it knows none for it. Of the extensions Pillow registers, these are the ones a path
  built by this program can end in.
\<close>

definition img_save :: "platform \<Rightarrow> store \<Rightarrow> string \<Rightarrow> image \<Rightarrow> error + store" where
  "img_save os fs path img =
     (if lower (snd (os_path_splitext os path)) \<in> set [''.jpg'', ''.jpeg'', ''.png'']
      then write_file os fs path (Picture img)
      else Inl ValueError)"

definition shutil_copyfile :: "platform \<Rightarrow> store \<Rightarrow> string \<Rightarrow> string \<Rightarrow> error + store" where
  "shutil_copyfile os fs src dst =
     (if src = dst then Inl SameFileError
      else (case fs src of
              None \<Rightarrow> Inl FileNotFoundError
            | Some c \<Rightarrow> write_file os fs dst c))"

definition fitz_open :: "store \<Rightarrow> string \<Rightarrow> error + image list" where
  "fitz_open fs path =
     (case fs path of
        None \<Rightarrow> Inl FileNotFoundError
      | Some (Pdf pages) \<Rightarrow> Inr pages
      | Some _ \<Rightarrow> Inl FileDataError)"

section \<open>The request handler\<close>

text \<open>
  \<open>convert_to_pdf\<close>: the office application opens the input and saves it as PDF; any
  failure is re-raised as \<open>RuntimeError\<close>. \<open>os.path.abspath\<close> is the identity on the
  keys of the store.
\<close>

definition save_as_pdf :: "platform \<Rightarrow> store \<Rightarrow> string \<Rightarrow> image list \<Rightarrow> store \<times> (error + string)" where
  "save_as_pdf os fs output_path pages =
     (case write_file os fs output_path (Pdf pages) of
        Inl e \<Rightarrow> (fs, Inl RuntimeError)
      | Inr fs' \<Rightarrow> (fs', Inr output_path))"

definition convert_to_pdf :: "platform \<Rightarrow> store \<Rightarrow> string \<Rightarrow> string \<Rightarrow> store \<times> (error + string)" where
  "convert_to_pdf os fs input_path output_path =
     (let file_extension = lower (last (split_on (CHR ''.'') input_path)) in
      if file_extension \<in> set [''doc'', ''docx''] then
        (case fs input_path of
           Some (Document pages) \<Rightarrow> save_as_pdf os fs output_path pages
         | _ \<Rightarrow> (fs, Inl RuntimeError))
      else if file_extension \<in> set [''ppt'', ''pptx''] then
        (case fs input_path of
           Some (Presentation pages) \<Rightarrow> save_as_pdf os fs output_path pages
         | _ \<Rightarrow> (fs, Inl RuntimeError))
      else (fs, Inr output_path))"

definition process_image ::
  "platform \<Rightarrow> store \<Rightarrow> string \<Rightarrow> string \<Rightarrow> string \<Rightarrow> string \<Rightarrow> string \<Rightarrow>
   store \<times> (error + string)" where
  "process_image os fs image_path copy_color orientation paper_punch paper_binding =
     (case Image_open fs image_path of
        Inl e \<Rightarrow> (fs, Inl e)
      | Inr img0 \<Rightarrow>
          (let img = fst (annotate (scan_of os) img0 copy_color orientation paper_punch
                            paper_binding);
               transformed_image_path =
                 os_path_join os IMAGE_FOLDER (''processed_'' @ os_path_basename os image_path)
           in case img_save os fs transformed_image_path img of
                Inl e \<Rightarrow> (fs, Inl e)
              | Inr fs' \<Rightarrow> (fs', Inr transformed_image_path)))"

text \<open>
  The answer is kept by what it shows: the literal text of the error page, or the preview
  page with the address of each picture in order; the fixed markup around them is left out.
\<close>

definition generate_html_response :: "platform \<Rightarrow> string list \<Rightarrow> response" where
  "generate_html_response os image_files =
     Preview (map (\<lambda>image_file. ''/static/'' @ os_path_basename os image_file) image_files)"

text \<open>The loop over the pages of the opened PDF, \<open>page_num\<close> counting from 0.\<close>

fun pages_loop ::
  "platform \<Rightarrow> store \<Rightarrow> string \<Rightarrow> nat \<Rightarrow> image list \<Rightarrow> string \<Rightarrow> string \<Rightarrow> string \<Rightarrow> string \<Rightarrow>
   string list \<Rightarrow> store \<times> (error + string list)" where
  "pages_loop os fs pdf_path page_num [] copy_color orientation paper_punch paper_binding
     converted_images = (fs, Inr converted_images)"
| "pages_loop os fs pdf_path page_num (pix # rest) copy_color orientation paper_punch
     paper_binding converted_images =
     (let image_path = os_path_join os IMAGE_FOLDER
            (hd (split_on (CHR ''.'') (os_path_basename os pdf_path)) @ ''_page_''
               @ digits (page_num + 1) @ ''.jpg'')
      in case write_file os fs image_path (Picture pix) of
           Inl e \<Rightarrow> (fs, Inl e)
         | Inr fs1 \<Rightarrow>
            (case process_image os fs1 image_path copy_color orientation paper_punch
                    paper_binding of
               (fs2, Inl e) \<Rightarrow> (fs2, Inl e)
             | (fs2, Inr p) \<Rightarrow>
                 pages_loop os fs2 pdf_path (page_num + 1) rest copy_color orientation
                   paper_punch paper_binding (converted_images @ [p])))"

definition pdf_to_images ::
  "platform \<Rightarrow> store \<Rightarrow> string \<Rightarrow> string \<Rightarrow> string \<Rightarrow> string \<Rightarrow> string \<Rightarrow>
   store \<times> (error + response)" where
  "pdf_to_images os fs pdf_path copy_color orientation paper_punch paper_binding =
     (case fitz_open fs pdf_path of
        Inl e \<Rightarrow> (fs, Inl e)
      | Inr pdf_doc \<Rightarrow>
          (case pages_loop os fs pdf_path 0 pdf_doc copy_color orientation paper_punch
                  paper_binding [] of
             (fs', Inl e) \<Rightarrow> (fs', Inl e)
           | (fs', Inr converted_images) \<Rightarrow>
               (fs', Inr (generate_html_response os converted_images))))"

text \<open>
  What \<open>upload_file\<close> does once the upload is saved: the chain of tests on the extension.
\<close>

definition after_save ::
  "platform \<Rightarrow> store \<Rightarrow> UploadFile \<Rightarrow> string \<Rightarrow> string \<Rightarrow> string \<Rightarrow> string \<Rightarrow>
   store \<times> (error + response)" where
  "after_save os fs1 upload copy_color orientation paper_punch paper_binding =
     (let file_extension = lower (last (split_on (CHR ''.'') (filename upload)));
          uploaded_file_path = os_path_join os UPLOAD_FOLDER (filename upload)
      in if file_extension \<in> set [''doc'', ''docx'', ''ppt'', ''pptx''] then
           (case convert_to_pdf os fs1 uploaded_file_path
                   (os_path_join os UPLOAD_FOLDER
                      (fst (os_path_splitext os (filename upload)) @ ''.pdf'')) of
              (fs2, Inl e) \<Rightarrow> (fs2, Inl e)
            | (fs2, Inr pdf_path) \<Rightarrow>
                pdf_to_images os fs2 pdf_path copy_color orientation paper_punch paper_binding)
         else if file_extension = ''pdf'' then
           pdf_to_images os fs1 uploaded_file_path copy_color orientation paper_punch
             paper_binding
         else if file_extension \<in> set [''jpg'', ''jpeg'', ''png''] then
           (let image_path = os_path_join os IMAGE_FOLDER (filename upload) in
            case shutil_copyfile os fs1 uploaded_file_path image_path of
              Inl e \<Rightarrow> (fs1, Inl e)
            | Inr fs2 \<Rightarrow>
                (case process_image os fs2 image_path copy_color orientation paper_punch
                        paper_binding of
                   (fs3, Inl e) \<Rightarrow> (fs3, Inl e)
                 | (fs3, Inr p) \<Rightarrow> (fs3, Inr (generate_html_response os [p]))))
         else (fs1, Inr (HTMLResponse ''<h1>Unsupported file type!</h1>'')))"

definition upload_file ::
  "platform \<Rightarrow> store \<Rightarrow> UploadFile \<Rightarrow> string \<Rightarrow> string \<Rightarrow> string \<Rightarrow> string \<Rightarrow>
   store \<times> (error + response)" where
  "upload_file os fs upload copy_color orientation paper_punch paper_binding =
     (case write_file os fs (os_path_join os UPLOAD_FOLDER (filename upload))
             (file_data upload) of
        Inl e \<Rightarrow> (fs, Inl e)
      | Inr fs1 \<Rightarrow> after_save os fs1 upload copy_color orientation paper_punch paper_binding)"

subsection \<open>The value an option field acts as\<close>

text \<open>
  Every test the program makes on an option is an equality with one of the values that
  switch a step on. The value a field acts as is itself when it is one of those, and the
  field's idle value otherwise.
\<close>

definition acts_as_color :: "string \<Rightarrow> string" where
  "acts_as_color copy_color = (if copy_color = ''black_and_white'' then copy_color else ''color'')"

definition acts_as_orientation :: "string \<Rightarrow> string" where
  "acts_as_orientation orientation = (if orientation = ''landscape'' then orientation else ''portrait'')"

definition acts_as_punch :: "string \<Rightarrow> string" where
  "acts_as_punch paper_punch =
     (if paper_punch = ''two_holes'' \<or> paper_punch = ''three_holes'' then paper_punch else ''no_hole'')"

definition acts_as_binding :: "string \<Rightarrow> string" where
  "acts_as_binding paper_binding =
     (if paper_binding = ''corner_staple'' then paper_binding else ''no_staple'')"

subsection \<open>A platform for the examples\<close>

text \<open>
  The program loads \<open>comtypes\<close>, so it runs on Windows. This platform has the path
  functions of \<open>ntpath\<close> for names without a network share: both slashes separate, a
  name that starts with a separator or has a colon in second place replaces the folder it
  is joined to, and the base name is what follows the drive and the last separator. Its
  working directory holds the two folders the module creates when it is loaded and no
  other folder, and a file can be created in these three places under any name that is
  not empty, \<open>.\<close>, \<open>..\<close> or the name of one of the two folders. Folder names are
  compared as written. It is used in examples only; every theorem about the handler holds
  for all platforms.
\<close>

definition backslash :: char where
  "backslash = CHR 0x5C"

definition is_sep :: "char \<Rightarrow> bool" where
  "is_sep c = (c = backslash \<or> c = CHR ''/'')"

definition anchored :: "string \<Rightarrow> bool" where
  "anchored p =
     (case p of
        [] \<Rightarrow> False
      | c # cs \<Rightarrow> is_sep c \<or> (case cs of [] \<Rightarrow> False | d # _ \<Rightarrow> d = CHR '':''))"

definition nt_join :: "string \<Rightarrow> string \<Rightarrow> string" where
  "nt_join a b =
     (if anchored b then b
      else if a = [] \<or> is_sep (last a) then a @ b
      else a @ [backslash] @ b)"

definition after_drive :: "string \<Rightarrow> string" where
  "after_drive p =
     (case p of
        c # d # rest \<Rightarrow> if \<not> is_sep c \<and> d = CHR '':'' then rest else p
      | _ \<Rightarrow> p)"

definition last_name :: "string \<Rightarrow> string" where
  "last_name p = rev (takeWhile (\<lambda>c. \<not> is_sep c) (rev p))"

definition nt_basename :: "string \<Rightarrow> string" where
  "nt_basename p = last_name (after_drive p)"

definition nt_splitext :: "string \<Rightarrow> string \<times> string" where
  "nt_splitext p =
     (let base = last_name p;
          ext = takeWhile (\<lambda>c. c \<noteq> CHR ''.'') (rev base);
          cut = length p - (length ext + 1)
      in if CHR ''.'' \<in> set base \<and>
            list_ex (\<lambda>c. c \<noteq> CHR ''.'') (take (length base - (length ext + 1)) base)
         then (take cut p, drop cut p)
         else (p, []))"

definition nt_can_write :: "string \<Rightarrow> bool" where
  "nt_can_write p =
     (let name = last_name p; folder = take (length p - length name) p
      in name \<notin> set ['''', ''.'', ''..''] \<and> p \<notin> set [UPLOAD_FOLDER, IMAGE_FOLDER] \<and>
         folder \<in> set ['''', UPLOAD_FOLDER @ [backslash], IMAGE_FOLDER @ [backslash],
                          UPLOAD_FOLDER @ ''/'', IMAGE_FOLDER @ ''/''])"

definition windows :: platform where
  "windows = \<lparr>os_path_join = nt_join, os_path_basename = nt_basename,
              os_path_splitext = nt_splitext, can_write = nt_can_write, scan_of = solid\<rparr>"


section \<open>Properties of the annotator\<close>

subsection \<open>Sizes and shapes\<close>

lemma size_convert_L: "width (convert_L img) = width img" "height (convert_L img) = height img"
  by (simp_all add: convert_L_def split: raster.split)

lemma size_paint:
  "width (paint scan c img) = width img" "height (paint scan c img) = height img"
  by (simp_all add: paint_def split: raster.split)

lemma size_rotate:
  "width (rotate_90_expand img) = height img" "height (rotate_90_expand img) = width img"
  by (simp_all add: rotate_90_expand_def Let_def)

lemma turn_rows_nth:
  "x < w \<Longrightarrow> y < h \<Longrightarrow> turn_rows w h rows ! (w - Suc x) ! y = rows ! y ! x"
  by (simp add: turn_rows_def)

lemma pixel_at_rotate:
  "x < width img \<Longrightarrow> y < height img \<Longrightarrow>
   pixel_at (rotate_90_expand img) y (width img - 1 - x) = pixel_at img x y"
  by (simp add: pixel_at_def rotate_90_expand_def Let_def turn_rows_nth split: raster.split)

lemma well_formed_rotate: "well_formed (rotate_90_expand img)"
  by (simp add: well_formed_def rotate_90_expand_def Let_def rect_def turn_rows_def list_all_iff
      split: raster.split)

lemma well_formed_convert_L: "well_formed img \<Longrightarrow> well_formed (convert_L img)"
  by (auto simp add: well_formed_def convert_L_def rect_def list_all_iff split: raster.splits)

lemma rect_paint_rows: "rect w h rows \<Longrightarrow> rect w h (paint_rows hit c rows)"
  by (auto simp add: rect_def paint_rows_def list_all_iff dest: set_zip_rightD)

lemma well_formed_paint: "well_formed img \<Longrightarrow> well_formed (paint scan c img)"
  by (auto simp add: well_formed_def paint_def rect_paint_rows split: raster.splits)

lemma well_formed_sheet: "well_formed (sheet w h)"
  by (simp add: well_formed_def sheet_def rect_def list_all_iff)

lemma grey_of_paint: "grey_of (px (paint scan c img)) = grey_of (px img)"
  by (simp add: paint_def split: raster.split)

subsection \<open>What drawing does to a pixel\<close>

lemma paint_rows_nth:
  assumes "rect w h rows" "x < w" "y < h"
  shows "paint_rows hit c rows ! y ! x = (if hit (int x) (int y) then c else rows ! y ! x)"
proof -
  from assms have len: "length rows = h" and row: "length (rows ! y) = w"
    by (auto simp add: rect_def list_all_iff)
  from len assms(3) have "paint_rows hit c rows ! y =
      map (\<lambda>(x, p). if hit (int x) (int y) then c else p) (zip [0..<length (rows ! y)] (rows ! y))"
    by (simp add: paint_rows_def)
  with row assms(2) show ?thesis by simp
qed

lemma pixel_at_paint:
  assumes "well_formed img" "x < width img" "y < height img"
  shows "pixel_at (paint scan c img) x y =
           (if scan c (int x) (int y) then grey_of (px img) else pixel_at img x y)"
proof (cases "px img")
  case (LData rows)
  with assms have "rect (width img) (height img) rows" by (simp add: well_formed_def)
  from paint_rows_nth[OF this assms(2,3)] LData show ?thesis
    by (simp add: pixel_at_def paint_def)
next
  case (RGBData rows)
  with assms have "rect (width img) (height img) rows" by (simp add: well_formed_def)
  from paint_rows_nth[OF this assms(2,3)] RGBData show ?thesis
    by (simp add: pixel_at_def paint_def)
qed

lemma well_formed_drawn:
  "list_all is_shape cs \<Longrightarrow> well_formed img \<Longrightarrow> well_formed (fold (apply_call scan) cs img)"
proof (induction cs arbitrary: img)
  case Nil
  then show ?case by simp
next
  case (Cons c cs)
  from Cons.prems(1) have "apply_call scan c img = paint scan c img"
    by (cases c) (simp_all add: is_shape_def)
  with Cons show ?case by (simp add: well_formed_paint)
qed

lemma pixel_at_drawn:
  assumes "list_all is_shape cs" "well_formed img" "x < width img" "y < height img"
  shows "well_formed (fold (apply_call scan) cs img)
       \<and> size_of (fold (apply_call scan) cs img) = size_of img
       \<and> grey_of (px (fold (apply_call scan) cs img)) = grey_of (px img)
       \<and> pixel_at (fold (apply_call scan) cs img) x y =
           (if list_ex (\<lambda>c. scan c (int x) (int y)) cs then grey_of (px img)
            else pixel_at img x y)"
  using assms
proof (induction cs arbitrary: img)
  case Nil
  then show ?case by simp
next
  case (Cons c cs)
  from Cons.prems(1) have shape: "apply_call scan c img = paint scan c img"
    by (cases c) (simp_all add: is_shape_def)
  let ?img = "paint scan c img"
  have wf: "well_formed ?img" using Cons.prems(2) by (rule well_formed_paint)
  have sz: "x < width ?img" "y < height ?img" using Cons.prems(3,4) by (simp_all add: size_paint)
  from Cons.prems(1) have rest: "list_all is_shape cs" by simp
  note ih = Cons.IH[OF rest wf sz]
  have here: "pixel_at ?img x y =
      (if scan c (int x) (int y) then grey_of (px img) else pixel_at img x y)"
    using Cons.prems(2,3,4) by (rule pixel_at_paint)
  from ih here show ?case
    by (simp add: shape grey_of_paint size_of_def size_paint)
qed

subsection \<open>The calls made and the image they leave\<close>

lemma annotate_calls:
  "snd (annotate scan img cc ori pp pb) =
     color_calls cc @ orientation_calls ori @ punch_marks (int (final_height img ori)) pp
       @ binding_calls pb"
  by (simp add: annotate_def Let_def convert_def rotate_def ellipse_def polygon_def
      color_calls_def orientation_calls_def punch_marks_def binding_calls_def circle_box_def
      final_height_def size_convert_L size_rotate)

lemma annotate_image:
  "fst (annotate scan img cc ori pp pb) =
     fold (apply_call scan) (snd (annotate scan img cc ori pp pb)) img"
  by (simp add: annotate_def Let_def convert_def rotate_def ellipse_def polygon_def)

lemma annotate_height: "height (fst (annotate scan img cc ori pp pb)) = final_height img ori"
  by (simp add: annotate_def Let_def convert_def rotate_def ellipse_def polygon_def
      final_height_def size_convert_L size_rotate size_paint)

lemma annotate_width:
  "width (fst (annotate scan img cc ori pp pb)) =
     (if ori = ''landscape'' then height img else width img)"
  by (simp add: annotate_def Let_def convert_def rotate_def ellipse_def polygon_def
      size_convert_L size_rotate size_paint)

lemma marks_are_shapes: "list_all is_shape (punch_marks h pp @ binding_calls pb)"
  by (simp add: punch_marks_def binding_calls_def is_shape_def)

lemma turned_well_formed:
  "well_formed img \<Longrightarrow>
   well_formed (fold (apply_call scan) (color_calls cc @ orientation_calls ori) img)"
  by (simp add: color_calls_def orientation_calls_def well_formed_rotate well_formed_convert_L)

lemma turned_size:
  "size_of (fold (apply_call scan) (color_calls cc @ orientation_calls ori) img) =
     size_of (fst (annotate scan img cc ori pp pb))"
  by (simp add: size_of_def annotate_width annotate_height final_height_def color_calls_def
      orientation_calls_def size_convert_L size_rotate)

text \<open>
  Every pixel of the annotated image is grey where one of the marks covers it, and is the
  pixel of the image as the rotation step left it elsewhere.
\<close>

lemma annotate_pixels:
  assumes "well_formed img"
    and "x < width (fst (annotate scan img cc ori pp pb))"
    and "y < height (fst (annotate scan img cc ori pp pb))"
  shows "pixel_at (fst (annotate scan img cc ori pp pb)) x y =
           (if list_ex (\<lambda>c. scan c (int x) (int y))
                 (punch_marks (int (final_height img ori)) pp @ binding_calls pb)
            then grey_of (px (fst (annotate scan img cc ori pp pb)))
            else pixel_at (fold (apply_call scan) (color_calls cc @ orientation_calls ori) img) x y)"
proof -
  let ?turned = "fold (apply_call scan) (color_calls cc @ orientation_calls ori) img"
  let ?marks = "punch_marks (int (final_height img ori)) pp @ binding_calls pb"
  have out: "fst (annotate scan img cc ori pp pb) = fold (apply_call scan) ?marks ?turned"
    by (simp add: annotate_image annotate_calls)
  have wf: "well_formed ?turned" using assms(1) by (rule turned_well_formed)
  have sz: "x < width ?turned" "y < height ?turned"
    using assms(2,3) turned_size[of scan cc ori img pp pb] by (simp_all add: size_of_def)
  from pixel_at_drawn[OF marks_are_shapes wf sz, of scan "int (final_height img ori)" pp pb]
  show ?thesis unfolding out by simp
qed

subsection \<open>The example scan conversion\<close>

lemma disc_core:
  fixes a b r :: int
  assumes "0 < r"
  shows "((2 * a)\<^sup>2 * (2 * r)\<^sup>2 + (2 * b)\<^sup>2 * (2 * r)\<^sup>2 \<le> (2 * r)\<^sup>2 * (2 * r)\<^sup>2)
         = (a\<^sup>2 + b\<^sup>2 \<le> r\<^sup>2)"
proof -
  have pos: "0 < 16 * r\<^sup>2" using assms by simp
  have l: "(2 * a)\<^sup>2 * (2 * r)\<^sup>2 + (2 * b)\<^sup>2 * (2 * r)\<^sup>2 = (16 * r\<^sup>2) * (a\<^sup>2 + b\<^sup>2)"
    by (simp add: power2_eq_square algebra_simps)
  have r: "(2 * r)\<^sup>2 * (2 * r)\<^sup>2 = (16 * r\<^sup>2) * r\<^sup>2"
    by (simp add: power2_eq_square algebra_simps)
  show ?thesis
    unfolding l r using pos by (rule mult_le_cancel_left_pos)
qed

lemma disc_bound:
  fixes a b r :: int
  assumes "0 < r" "a\<^sup>2 + b\<^sup>2 \<le> r\<^sup>2"
  shows "- r \<le> a \<and> a \<le> r"
proof -
  have "a\<^sup>2 \<le> r\<^sup>2" using assms(2) zero_le_power2[of b] by linarith
  then have "\<bar>a\<bar> \<le> \<bar>r\<bar>" by (simp add: abs_le_square_iff)
  then show ?thesis using assms(1) by linarith
qed

lemma in_ellipse_circle_box:
  assumes "0 < r"
  shows "in_ellipse (circle_box cx cy r) x y = ((x - cx)\<^sup>2 + (y - cy)\<^sup>2 \<le> r\<^sup>2)"
proof -
  have dx: "2 * x - (cx - r + (cx + r)) = 2 * (x - cx)"
    and dy: "2 * y - (cy - r + (cy + r)) = 2 * (y - cy)"
    and d: "cx + r - (cx - r) = 2 * r" "cy + r - (cy - r) = 2 * r"
    by simp_all
  have core: "((2 * (x - cx))\<^sup>2 * (2 * r)\<^sup>2 + (2 * (y - cy))\<^sup>2 * (2 * r)\<^sup>2
                 \<le> (2 * r)\<^sup>2 * (2 * r)\<^sup>2)
      = ((x - cx)\<^sup>2 + (y - cy)\<^sup>2 \<le> r\<^sup>2)"
    using assms by (rule disc_core)
  have inside: "cx - r \<le> x \<and> x \<le> cx + r \<and> cy - r \<le> y \<and> y \<le> cy + r"
    if "(x - cx)\<^sup>2 + (y - cy)\<^sup>2 \<le> r\<^sup>2"
  proof -
    have "(y - cy)\<^sup>2 + (x - cx)\<^sup>2 \<le> r\<^sup>2" using that by simp
    with that assms disc_bound[of r "x - cx" "y - cy"] disc_bound[of r "y - cy" "x - cx"]
    show ?thesis by linarith
  qed
  show ?thesis
    unfolding in_ellipse_def circle_box_def prod.case dx dy d core
    using inside by blast
qed

lemma solid_staple_window:
  "solid (Polygon staple_coords ''grey'') x y \<Longrightarrow> 35 \<le> x \<and> x \<le> 77 \<and> 30 \<le> y \<and> y \<le> 45"
  by (simp add: in_convex_def staple_coords_def side_def) arith


section \<open>The claims about the annotator\<close>

text \<open>
  C1. The annotator applies its steps in one order: colour reduction, then orientation, then
  punch marks, then the binding mark. The calls it makes are those of the four steps in that
  order, the image it returns is the input with these calls applied in that order, and the
  punch-mark centres are computed from the height the image has after the rotation step
  (the original width, for landscape); the marks are drawn on the rotated image.
\<close>

theorem annotate_fixed_order:
  "let after_rotation = fold (apply_call scan) (color_calls cc @ orientation_calls ori) img;
       marks = punch_marks (int (height after_rotation)) pp @ binding_calls pb
   in annotate scan img cc ori pp pb =
        (fold (apply_call scan) marks after_rotation,
         color_calls cc @ orientation_calls ori @ marks)
      \<and> height after_rotation = (if ori = ''landscape'' then width img else height img)"
  apply (simp add: Let_def prod_eq_iff annotate_calls annotate_image)
  apply (simp add: color_calls_def orientation_calls_def final_height_def size_convert_L size_rotate)
  done

theorem annotate_fixed_order_witness:
  "annotate solid swatch ''black_and_white'' ''landscape'' ''two_holes'' ''corner_staple'' =
     (fold (apply_call solid)
        [Ellipse (circle_box 20 0 10) ''grey'', Ellipse (circle_box 20 1 10) ''grey'',
         Polygon staple_coords ''grey'']
        (rotate_90_expand (convert_L swatch)),
      [Convert ''L'', Rotate 90 True,
       Ellipse (circle_box 20 0 10) ''grey'', Ellipse (circle_box 20 1 10) ''grey'',
       Polygon staple_coords ''grey''])"
  using annotate_fixed_order
    [of solid "''black_and_white''" "''landscape''" swatch "''two_holes''" "''corner_staple''"]
  by (simp add: Let_def color_calls_def orientation_calls_def punch_marks_def binding_calls_def
      size_rotate size_convert_L swatch_def)

text \<open>
  C2. With \<open>two_holes\<close> the annotator draws two filled circles of radius 10 centred at
  x = 20, at the heights h div 3 and 2 * h div 3 of the annotated image (300 and 600 when it
  is 900 pixels tall); with \<open>three_holes\<close> three, at h div 4, h div 2 and 3 * h div 4; with
  \<open>no_hole\<close> none. These are all the ellipse calls it makes, each on the square box that
  reaches 10 to each side of its centre, and the picture shows them: whatever the scan
  conversion, a pixel of the output is grey where it covers one of the marks (or the
  staple), and elsewhere it is the pixel of the image as the rotation step left it.
\<close>

theorem punch_marks_geometry:
  "let out = fst (annotate scan img cc ori pp pb);
       calls = snd (annotate scan img cc ori pp pb);
       marks = filter is_ellipse calls;
       h = int (height out);
       turned = fold (apply_call scan) (color_calls cc @ orientation_calls ori) img
   in (pp = ''two_holes'' \<longrightarrow>
         marks = [Ellipse (circle_box 20 (h div 3) 10) ''grey'',
                  Ellipse (circle_box 20 (2 * h div 3) 10) ''grey''])
    \<and> (pp = ''three_holes'' \<longrightarrow>
         marks = [Ellipse (circle_box 20 (h div 4) 10) ''grey'',
                  Ellipse (circle_box 20 (h div 2) 10) ''grey'',
                  Ellipse (circle_box 20 (3 * h div 4) 10) ''grey''])
    \<and> (pp = ''no_hole'' \<longrightarrow> marks = [])
    \<and> (pp = ''two_holes'' \<and> h = 900 \<longrightarrow>
         marks = [Ellipse (circle_box 20 300 10) ''grey'', Ellipse (circle_box 20 600 10) ''grey''])
    \<and> circle_box 20 c 10 = (20 - 10, c - 10, 20 + 10, c + 10)
    \<and> (well_formed img \<longrightarrow>
         (\<forall>x<width out. \<forall>y<height out.
            pixel_at out x y =
              (if list_ex (\<lambda>m. scan m (int x) (int y)) (marks @ filter is_polygon calls)
               then grey_of (px out) else pixel_at turned x y)))"
proof -
  let ?out = "fst (annotate scan img cc ori pp pb)"
  let ?calls = "snd (annotate scan img cc ori pp pb)"
  let ?h = "int (height ?out)"
  have h: "?h = int (final_height img ori)" by (simp add: annotate_height)
  have marks: "filter is_ellipse ?calls = punch_marks ?h pp"
    by (simp add: annotate_calls h color_calls_def orientation_calls_def punch_marks_def
        binding_calls_def)
  have staple: "filter is_polygon ?calls = binding_calls pb"
    by (simp add: annotate_calls color_calls_def orientation_calls_def punch_marks_def
        binding_calls_def)
  have pixels: "\<forall>x<width ?out. \<forall>y<height ?out.
      pixel_at ?out x y =
        (if list_ex (\<lambda>m. scan m (int x) (int y)) (punch_marks ?h pp @ binding_calls pb)
         then grey_of (px ?out)
         else pixel_at (fold (apply_call scan) (color_calls cc @ orientation_calls ori) img) x y)"
    if "well_formed img"
    unfolding h using annotate_pixels[OF that, of _ scan cc ori pp pb] by blast
  show ?thesis
    unfolding Let_def marks staple
    using pixels by (simp add: punch_marks_def circle_box_def annotate_height)
qed

theorem punch_marks_geometry_witness:
  "filter is_ellipse (snd (annotate solid (sheet 600 900) ''color'' ''portrait'' ''two_holes'' ''no_staple''))
     = [Ellipse (circle_box 20 300 10) ''grey'', Ellipse (circle_box 20 600 10) ''grey'']
   \<and> pixel_at (fst (annotate solid (sheet 600 900) ''color'' ''portrait'' ''two_holes'' ''no_staple'')) 20 300
     = [128]
   \<and> pixel_at (fst (annotate solid (sheet 600 900) ''color'' ''portrait'' ''two_holes'' ''no_staple'')) 20 311
     = [255]
   \<and> filter is_ellipse (snd (annotate solid (sheet 600 900) ''color'' ''portrait'' ''three_holes'' ''no_staple''))
     = [Ellipse (circle_box 20 225 10) ''grey'', Ellipse (circle_box 20 450 10) ''grey'',
        Ellipse (circle_box 20 675 10) ''grey'']
   \<and> filter is_ellipse (snd (annotate solid (sheet 600 900) ''color'' ''portrait'' ''no_hole'' ''no_staple''))
     = []"
proof -
  let ?two = "annotate solid (sheet 600 900) ''color'' ''portrait'' ''two_holes'' ''no_staple''"
  note two = punch_marks_geometry
    [of solid "sheet 600 900" "''color''" "''portrait''" "''two_holes''" "''no_staple''" 0]
  have size: "width (fst ?two) = 600" "height (fst ?two) = 900"
    by (simp_all add: annotate_width annotate_height final_height_def sheet_def)
  have log: "filter is_ellipse (snd ?two) =
      [Ellipse (circle_box 20 300 10) ''grey'', Ellipse (circle_box 20 600 10) ''grey'']"
    using two by (simp add: Let_def size)
  have staple: "filter is_polygon (snd ?two) = []"
    by (simp add: annotate_calls color_calls_def orientation_calls_def punch_marks_def
        binding_calls_def)
  have mode: "grey_of (px (fst ?two)) = [128]"
    by (simp add: annotate_image annotate_calls color_calls_def orientation_calls_def
        punch_marks_def binding_calls_def grey_of_paint sheet_def)
  have all: "\<forall>x<600. \<forall>y<900. pixel_at (fst ?two) x y =
      (if solid (Ellipse (circle_box 20 300 10) ''grey'') (int x) (int y)
          \<or> solid (Ellipse (circle_box 20 600 10) ''grey'') (int x) (int y)
       then [128] else pixel_at (sheet 600 900) x y)"
    using two well_formed_sheet[of 600 900]
    by (simp add: Let_def size log staple mode color_calls_def orientation_calls_def)
  have white: "pixel_at (sheet 600 900) 20 311 = [255]"
    by (simp add: pixel_at_def sheet_def)
  from all have hit: "pixel_at (fst ?two) 20 300 = [128]"
    by (simp add: in_ellipse_circle_box)
  from all white have miss: "pixel_at (fst ?two) 20 311 = [255]"
    by (simp add: in_ellipse_circle_box)
  from log hit miss
    punch_marks_geometry
      [of solid "sheet 600 900" "''color''" "''portrait''" "''three_holes''" "''no_staple''" 0]
    punch_marks_geometry
      [of solid "sheet 600 900" "''color''" "''portrait''" "''no_hole''" "''no_staple''" 0]
  show ?thesis
    by (simp add: Let_def annotate_height final_height_def sheet_def)
qed

text \<open>
  C3. With \<open>corner_staple\<close> the binding step draws exactly one filled quadrilateral, with
  the vertices (35,40), (75,30), (77,35), (37,45) whatever the image and its size: it is the
  one polygon call made, it comes last, and the picture shows it: whatever the scan
  conversion, a pixel of the output is grey where it covers the quadrilateral and elsewhere
  is the pixel of what the first three steps produced. The vertices lie in the window of
  columns 35 to 77 and rows 30 to 45, counted from the top-left pixel, and with a scan
  conversion that stays inside that window no pixel outside it changes. With \<open>no_staple\<close>
  the result is what the first three steps produced.
\<close>

theorem staple_mark_fixed:
  "let staple = Polygon [(35, 40), (75, 30), (77, 35), (37, 45)] ''grey'';
       steps = color_calls cc @ orientation_calls ori @ punch_marks (int (final_height img ori)) pp;
       before = fold (apply_call scan) steps img;
       out = fst (annotate scan img cc ori pp pb);
       calls = snd (annotate scan img cc ori pp pb)
   in (pb = ''corner_staple'' \<longrightarrow>
         calls = steps @ [staple] \<and> filter is_polygon calls = [staple]
         \<and> size_of out = size_of before
         \<and> (well_formed img \<longrightarrow>
              (\<forall>x<width out. \<forall>y<height out.
                 pixel_at out x y =
                   (if scan staple (int x) (int y) then grey_of (px out)
                    else pixel_at before x y)))
         \<and> (well_formed img \<and>
              (\<forall>x y. scan staple x y \<longrightarrow> 35 \<le> x \<and> x \<le> 77 \<and> 30 \<le> y \<and> y \<le> 45) \<longrightarrow>
              (\<forall>x<width out. \<forall>y<height out.
                 x < 35 \<or> 77 < x \<or> y < 30 \<or> 45 < y \<longrightarrow> pixel_at out x y = pixel_at before x y)))
    \<and> (pb = ''no_staple'' \<longrightarrow> out = before \<and> calls = steps \<and> filter is_polygon calls = [])
    \<and> list_all (\<lambda>(x, y). 35 \<le> x \<and> x \<le> 77 \<and> 30 \<le> y \<and> y \<le> 45)
         [(35, 40), (75, 30), (77, 35), (37 :: int, 45 :: int)]"
proof -
  let ?staple = "Polygon [(35, 40), (75, 30), (77, 35), (37, 45)] ''grey''"
  let ?steps = "color_calls cc @ orientation_calls ori @ punch_marks (int (final_height img ori)) pp"
  let ?before = "fold (apply_call scan) ?steps img"
  let ?out = "fst (annotate scan img cc ori pp pb)"
  let ?calls = "snd (annotate scan img cc ori pp pb)"
  have calls: "?calls = ?steps @ binding_calls pb" by (simp add: annotate_calls)
  have out: "?out = fold (apply_call scan) (binding_calls pb) ?before"
    by (simp add: annotate_image annotate_calls)
  have no_poly: "filter is_polygon ?steps = []"
    by (simp add: color_calls_def orientation_calls_def punch_marks_def)
  have wf: "well_formed ?before" if "well_formed img"
  proof -
    have "list_all is_shape (punch_marks (int (final_height img ori)) pp)"
      using marks_are_shapes[of "int (final_height img ori)" pp "''no_staple''"]
      by (simp add: binding_calls_def)
    from well_formed_drawn[OF this turned_well_formed[OF that], of scan scan cc ori]
    show ?thesis by simp
  qed
  have corner: "(?calls = ?steps @ [?staple] \<and> filter is_polygon ?calls = [?staple]
      \<and> size_of ?out = size_of ?before
      \<and> (well_formed img \<longrightarrow>
           (\<forall>x<width ?out. \<forall>y<height ?out.
              pixel_at ?out x y =
                (if scan ?staple (int x) (int y) then grey_of (px ?out)
                 else pixel_at ?before x y)))
      \<and> (well_formed img \<and>
           (\<forall>x y. scan ?staple x y \<longrightarrow> 35 \<le> x \<and> x \<le> 77 \<and> 30 \<le> y \<and> y \<le> 45) \<longrightarrow>
           (\<forall>x<width ?out. \<forall>y<height ?out.
              x < 35 \<or> 77 < x \<or> y < 30 \<or> 45 < y \<longrightarrow> pixel_at ?out x y = pixel_at ?before x y)))"
    if staple: "pb = ''corner_staple''"
  proof -
    have bc: "binding_calls pb = [?staple]"
      using staple by (simp add: binding_calls_def staple_coords_def)
    have c1: "?calls = ?steps @ [?staple]" by (simp only: calls bc)
    have c2: "filter is_polygon ?calls = [?staple]"
      unfolding c1 using no_poly by simp
    have painted: "?out = paint scan ?staple ?before"
      unfolding out bc by simp
    have c3: "size_of ?out = size_of ?before"
      unfolding painted by (simp add: size_of_def size_paint)
    have c4: "\<forall>x<width ?out. \<forall>y<height ?out.
        pixel_at ?out x y =
          (if scan ?staple (int x) (int y) then grey_of (px ?out) else pixel_at ?before x y)"
      if "well_formed img"
      unfolding painted
      using pixel_at_paint[OF wf[OF that], of _ _ scan ?staple]
      by (simp add: size_paint grey_of_paint)
    have c5: "\<forall>x<width ?out. \<forall>y<height ?out.
        x < 35 \<or> 77 < x \<or> y < 30 \<or> 45 < y \<longrightarrow> pixel_at ?out x y = pixel_at ?before x y"
      if "well_formed img"
        and inside: "\<forall>x y. scan ?staple x y \<longrightarrow> 35 \<le> x \<and> x \<le> 77 \<and> 30 \<le> y \<and> y \<le> 45"
    proof (intro allI impI)
      fix x y
      assume xy: "x < width ?out" "y < height ?out"
        and off: "x < 35 \<or> 77 < x \<or> y < 30 \<or> 45 < y"
      from off have "\<not> (35 \<le> int x \<and> int x \<le> 77 \<and> 30 \<le> int y \<and> int y \<le> 45)" by auto
      with inside have "\<not> scan ?staple (int x) (int y)" by blast
      with c4[OF that(1)] xy show "pixel_at ?out x y = pixel_at ?before x y" by simp
    qed
    from c1 c2 c3 c4 c5 show ?thesis by blast
  qed
  have plain: "?out = ?before \<and> ?calls = ?steps \<and> filter is_polygon ?calls = []"
    if none: "pb = ''no_staple''"
  proof -
    have bc: "binding_calls pb = []" using none by (simp add: binding_calls_def)
    show ?thesis unfolding out calls bc using no_poly by simp
  qed
  have vertices: "list_all (\<lambda>(x, y). 35 \<le> x \<and> x \<le> 77 \<and> 30 \<le> y \<and> y \<le> 45)
      [(35, 40), (75, 30), (77, 35), (37 :: int, 45 :: int)]"
    by simp
  show ?thesis
    unfolding Let_def using corner plain vertices by blast
qed

theorem staple_mark_fixed_witness:
  "filter is_polygon (snd (annotate solid (sheet 80 50) ''color'' ''portrait'' ''no_hole'' ''corner_staple''))
     = [Polygon [(35, 40), (75, 30), (77, 35), (37, 45)] ''grey'']
   \<and> pixel_at (fst (annotate solid (sheet 80 50) ''color'' ''portrait'' ''no_hole'' ''corner_staple'')) 40 40
     = [128]
   \<and> pixel_at (fst (annotate solid (sheet 80 50) ''color'' ''portrait'' ''no_hole'' ''corner_staple'')) 78 40
     = [255]
   \<and> filter is_polygon (snd (annotate solid (sheet 600 900) ''color'' ''landscape'' ''no_hole'' ''corner_staple''))
     = [Polygon [(35, 40), (75, 30), (77, 35), (37, 45)] ''grey'']
   \<and> annotate solid swatch ''color'' ''portrait'' ''no_hole'' ''no_staple'' = (swatch, [])"
proof -
  let ?staple = "Polygon [(35, 40), (75, 30), (77, 35), (37, 45)] ''grey''"
  let ?run = "annotate solid (sheet 80 50) ''color'' ''portrait'' ''no_hole'' ''corner_staple''"
  note small = staple_mark_fixed
    [of "''color''" "''portrait''" "sheet 80 50" "''no_hole''" solid "''corner_staple''"]
  have size: "width (fst ?run) = 80" "height (fst ?run) = 50"
    by (simp_all add: annotate_width annotate_height final_height_def sheet_def)
  have mode: "grey_of (px (fst ?run)) = [128]"
    by (simp add: annotate_image annotate_calls color_calls_def orientation_calls_def
        punch_marks_def binding_calls_def grey_of_paint sheet_def)
  have stays: "\<forall>x y. solid ?staple x y \<longrightarrow> 35 \<le> x \<and> x \<le> 77 \<and> 30 \<le> y \<and> y \<le> 45"
    using solid_staple_window by (simp add: staple_coords_def)
  have log: "filter is_polygon (snd ?run) = [?staple]"
    using small by (simp add: Let_def color_calls_def orientation_calls_def punch_marks_def)
  have all: "\<forall>x<80. \<forall>y<50. pixel_at (fst ?run) x y =
      (if solid ?staple (int x) (int y) then [128] else pixel_at (sheet 80 50) x y)"
    using small well_formed_sheet[of 80 50]
    by (simp add: Let_def size mode color_calls_def orientation_calls_def punch_marks_def)
  have outside: "\<forall>x<80. \<forall>y<50. x < 35 \<or> 77 < x \<or> y < 30 \<or> 45 < y \<longrightarrow>
      pixel_at (fst ?run) x y = pixel_at (sheet 80 50) x y"
  proof -
    from small well_formed_sheet[of 80 50] stays
    have "\<forall>x<width (fst ?run). \<forall>y<height (fst ?run).
        x < 35 \<or> 77 < x \<or> y < 30 \<or> 45 < y \<longrightarrow>
        pixel_at (fst ?run) x y =
          pixel_at (fold (apply_call solid)
            (color_calls ''color'' @ orientation_calls ''portrait'' @
             punch_marks (int (final_height (sheet 80 50) ''portrait'')) ''no_hole'')
            (sheet 80 50)) x y"
      unfolding Let_def by blast
    then show ?thesis
      by (simp add: size color_calls_def orientation_calls_def punch_marks_def)
  qed
  have white: "pixel_at (sheet 80 50) 78 40 = [255]"
    by (simp add: pixel_at_def sheet_def)
  from all have hit: "pixel_at (fst ?run) 40 40 = [128]"
    by (simp add: in_convex_def side_def)
  from outside white have miss: "pixel_at (fst ?run) 78 40 = [255]"
    by simp
  from log hit miss
    staple_mark_fixed
      [of "''color''" "''landscape''" "sheet 600 900" "''no_hole''" solid "''corner_staple''"]
    staple_mark_fixed
      [of "''color''" "''portrait''" swatch "''no_hole''" solid "''no_staple''"]
  show ?thesis
    by (simp add: Let_def color_calls_def orientation_calls_def punch_marks_def prod_eq_iff)
qed

text \<open>
  C4. With \<open>landscape\<close> the image is turned a quarter and the canvas grows with it: the
  output is as wide as the input was high and as high as it was wide, it is the marks drawn
  on the turned image, the turned image is a full rectangle, and every pixel of the image
  before the turn is found in it (the one at column x, row y at column y, row w - 1 - x).
  With \<open>portrait\<close> the step does nothing: the marks are drawn on the image as the colour
  step left it, and the size is unchanged.
\<close>

theorem landscape_swaps_dimensions:
  "let pre = fold (apply_call scan) (color_calls cc) img;
       marks = punch_marks (int (final_height img ori)) pp @ binding_calls pb;
       out = fst (annotate scan img cc ori pp pb)
   in (ori = ''landscape'' \<longrightarrow>
         out = fold (apply_call scan) marks (rotate_90_expand pre)
         \<and> size_of out = (height img, width img)
         \<and> well_formed (rotate_90_expand pre)
         \<and> (\<forall>x<width pre. \<forall>y<height pre.
               pixel_at (rotate_90_expand pre) y (width pre - 1 - x) = pixel_at pre x y))
    \<and> (ori = ''portrait'' \<longrightarrow>
         out = fold (apply_call scan) marks pre \<and> size_of out = size_of img)"
proof -
  have shape: "fst (annotate scan img cc orn pp pb) =
      fold (apply_call scan) (punch_marks (int (final_height img orn)) pp @ binding_calls pb)
        (fold (apply_call scan) (orientation_calls orn)
           (fold (apply_call scan) (color_calls cc) img))" for orn
    by (simp add: annotate_image annotate_calls)
  have dims: "size_of (fst (annotate scan img cc orn pp pb)) =
      (if orn = ''landscape'' then (height img, width img) else size_of img)" for orn
    by (simp add: size_of_def annotate_width annotate_height final_height_def)
  have turned: "\<forall>x<width p. \<forall>y<height p.
      pixel_at (rotate_90_expand p) y (width p - 1 - x) = pixel_at p x y" for p
    using pixel_at_rotate by blast
  have land: "fst (annotate scan img cc ''landscape'' pp pb) =
      fold (apply_call scan)
        (punch_marks (int (final_height img ''landscape'')) pp @ binding_calls pb)
        (rotate_90_expand (fold (apply_call scan) (color_calls cc) img))"
    by (simp add: shape orientation_calls_def)
  have port: "fst (annotate scan img cc ''portrait'' pp pb) =
      fold (apply_call scan)
        (punch_marks (int (final_height img ''portrait'')) pp @ binding_calls pb)
        (fold (apply_call scan) (color_calls cc) img)"
    by (simp add: shape orientation_calls_def)
  have dl: "size_of (fold (apply_call scan)
        (punch_marks (int (final_height img ''landscape'')) pp @ binding_calls pb)
        (rotate_90_expand (fold (apply_call scan) (color_calls cc) img))) = (height img, width img)"
    using dims[of "''landscape''"] unfolding land by simp
  have dp: "size_of (fold (apply_call scan)
        (punch_marks (int (final_height img ''portrait'')) pp @ binding_calls pb)
        (fold (apply_call scan) (color_calls cc) img)) = size_of img"
    using dims[of "''portrait''"] unfolding port by simp
  show ?thesis
    unfolding Let_def
    using land port dl dp turned well_formed_rotate by simp
qed

theorem landscape_swaps_dimensions_witness:
  "fst (annotate solid swatch ''color'' ''landscape'' ''no_hole'' ''no_staple'') = rotate_90_expand swatch
   \<and> size_of (rotate_90_expand swatch) = (3, 2)
   \<and> pixel_at (rotate_90_expand swatch) 2 0 = pixel_at swatch 1 2
   \<and> pixel_at swatch 1 2 = [70, 80, 90]
   \<and> fst (annotate solid swatch ''color'' ''portrait'' ''no_hole'' ''no_staple'') = swatch"
proof -
  have w: "width swatch = 2" "height swatch = 3" by (simp_all add: swatch_def)
  have px: "pixel_at swatch 1 2 = [70, 80, 90]" by (simp add: pixel_at_def swatch_def)
  have land: "fst (annotate solid swatch ''color'' ''landscape'' ''no_hole'' ''no_staple'') = rotate_90_expand swatch
      \<and> size_of (fst (annotate solid swatch ''color'' ''landscape'' ''no_hole'' ''no_staple'')) = (3, 2)
      \<and> (\<forall>x<width swatch. \<forall>y<height swatch.
            pixel_at (rotate_90_expand swatch) y (width swatch - 1 - x) = pixel_at swatch x y)"
    using landscape_swaps_dimensions
      [of solid "''color''" swatch "''landscape''" "''no_hole''" "''no_staple''"]
    by (simp add: Let_def color_calls_def punch_marks_def binding_calls_def w size_of_def size_rotate)
  then have "1 < width swatch \<longrightarrow> 2 < height swatch \<longrightarrow>
      pixel_at (rotate_90_expand swatch) 2 (width swatch - 1 - 1) = pixel_at swatch 1 2"
    by blast
  then have turned: "pixel_at (rotate_90_expand swatch) 2 0 = pixel_at swatch 1 2"
    by (simp add: w)
  have port: "fst (annotate solid swatch ''color'' ''portrait'' ''no_hole'' ''no_staple'') = swatch"
    using landscape_swaps_dimensions
      [of solid "''color''" swatch "''portrait''" "''no_hole''" "''no_staple''"]
    by (simp add: Let_def color_calls_def punch_marks_def binding_calls_def)
  have "size_of (rotate_90_expand swatch) = (3, 2)" by (simp add: size_of_def size_rotate w)
  with land turned px port show ?thesis by simp
qed

text \<open>
  C6 as stated fails: the annotator has no lower bound on the height and neither clamps nor
  skips. On a sheet 4 wide and 10 high with \<open>two_holes\<close> it makes both ellipse calls, with
  the top edges -7 and -4, the right edge 30 and the lower edges 13 and 16.
\<close>

theorem small_image_marks_out_of_bounds:
  "snd (annotate solid (sheet 4 10) ''color'' ''portrait'' ''two_holes'' ''no_staple'') =
     [Ellipse (10, - 7, 30, 13) ''grey'', Ellipse (10, - 4, 30, 16) ''grey'']
   \<and> \<not> list_all (call_in_image (fst (annotate solid (sheet 4 10) ''color'' ''portrait'' ''two_holes'' ''no_staple'')))
         (snd (annotate solid (sheet 4 10) ''color'' ''portrait'' ''two_holes'' ''no_staple''))"
  by (simp add: annotate_calls annotate_height annotate_width color_calls_def orientation_calls_def
      punch_marks_def binding_calls_def final_height_def sheet_def circle_box_def)

text \<open>
  C6 amended. For every image the punch marks are drawn unclamped, whatever the height h of
  the annotated image: the boxes are 10 to the left, right, above and below the centres
  (20, h div 3), (20, 2 * h div 3), respectively (20, h div 4), (20, h div 2),
  (20, 3 * h div 4). All their coordinates name pixels of the image exactly when it is at
  least 31 wide and at least 31 (two holes) or 41 (three holes) high.
\<close>

theorem punch_marks_unclamped:
  "let out = fst (annotate scan img cc ori pp pb);
       marks = filter is_ellipse (snd (annotate scan img cc ori pp pb));
       h = int (height out)
   in (pp = ''two_holes'' \<longrightarrow>
         marks = [Ellipse (10, h div 3 - 10, 30, h div 3 + 10) ''grey'',
                  Ellipse (10, 2 * h div 3 - 10, 30, 2 * h div 3 + 10) ''grey''] \<and>
         (list_all (call_in_image out) marks \<longleftrightarrow> 31 \<le> width out \<and> 31 \<le> height out))
    \<and> (pp = ''three_holes'' \<longrightarrow>
         marks = [Ellipse (10, h div 4 - 10, 30, h div 4 + 10) ''grey'',
                  Ellipse (10, h div 2 - 10, 30, h div 2 + 10) ''grey'',
                  Ellipse (10, 3 * h div 4 - 10, 30, 3 * h div 4 + 10) ''grey''] \<and>
         (list_all (call_in_image out) marks \<longleftrightarrow> 31 \<le> width out \<and> 41 \<le> height out))"
  apply (simp add: Let_def annotate_calls annotate_height color_calls_def orientation_calls_def
      punch_marks_def binding_calls_def circle_box_def)
  apply (intro conjI impI)
   apply arith
  apply arith
  done

theorem punch_marks_unclamped_witness:
  "filter is_ellipse (snd (annotate solid (sheet 31 31) ''color'' ''portrait'' ''two_holes'' ''no_staple''))
     = [Ellipse (10, 0, 30, 20) ''grey'', Ellipse (10, 10, 30, 30) ''grey'']
   \<and> list_all (call_in_image (fst (annotate solid (sheet 31 31) ''color'' ''portrait'' ''two_holes'' ''no_staple'')))
        (filter is_ellipse (snd (annotate solid (sheet 31 31) ''color'' ''portrait'' ''two_holes'' ''no_staple'')))
   \<and> filter is_ellipse (snd (annotate solid (sheet 31 40) ''color'' ''portrait'' ''three_holes'' ''no_staple''))
     = [Ellipse (10, 0, 30, 20) ''grey'', Ellipse (10, 10, 30, 30) ''grey'',
        Ellipse (10, 20, 30, 40) ''grey'']
   \<and> \<not> list_all (call_in_image (fst (annotate solid (sheet 31 40) ''color'' ''portrait'' ''three_holes'' ''no_staple'')))
        (filter is_ellipse (snd (annotate solid (sheet 31 40) ''color'' ''portrait'' ''three_holes'' ''no_staple'')))"
  using punch_marks_unclamped
      [of solid "sheet 31 31" "''color''" "''portrait''" "''two_holes''" "''no_staple''"]
    punch_marks_unclamped
      [of solid "sheet 31 40" "''color''" "''portrait''" "''three_holes''" "''no_staple''"]
  by (simp add: Let_def annotate_height annotate_width final_height_def sheet_def)

text \<open>
  C8. Colour reduction is idempotent: converting a converted image changes nothing, and so
  annotating the black-and-white output once more with \<open>black_and_white\<close> alone returns it.
\<close>

theorem grayscale_idempotent:
  "convert_L (convert_L img) = convert_L img
   \<and> fst (annotate scan img ''black_and_white'' ''portrait'' ''no_hole'' ''no_staple'') = convert_L img
   \<and> fst (annotate scan
            (fst (annotate scan img ''black_and_white'' ''portrait'' ''no_hole'' ''no_staple''))
            ''black_and_white'' ''portrait'' ''no_hole'' ''no_staple'')
     = fst (annotate scan img ''black_and_white'' ''portrait'' ''no_hole'' ''no_staple'')"
  by (simp add: annotate_image annotate_calls color_calls_def orientation_calls_def
      punch_marks_def binding_calls_def convert_L_def split: raster.split)

text \<open>
  C9. The landscape rotation swaps width and height, so doing it twice restores the size:
  for the rotation itself and for two landscape runs of the annotator, whatever the other
  options are.
\<close>

theorem rotation_restores_dimensions:
  "size_of (rotate_90_expand (rotate_90_expand img)) = size_of img
   \<and> size_of (fst (annotate scan (fst (annotate scan img cc ''landscape'' pp pb))
                     cc' ''landscape'' pp' pb'))
     = size_of img"
  by (simp add: size_of_def size_rotate annotate_height annotate_width final_height_def)

section \<open>Properties of the request handler\<close>

subsection \<open>Option values are only compared with the values that switch a step on\<close>

lemma annotate_acts_as:
  "annotate scan img cc ori pp pb =
     annotate scan img (acts_as_color cc) (acts_as_orientation ori) (acts_as_punch pp)
       (acts_as_binding pb)"
  by (simp add: annotate_def acts_as_color_def acts_as_orientation_def acts_as_punch_def
      acts_as_binding_def)

lemma process_image_acts_as:
  "process_image os fs p cc ori pp pb =
     process_image os fs p (acts_as_color cc) (acts_as_orientation ori) (acts_as_punch pp)
       (acts_as_binding pb)"
  unfolding process_image_def annotate_acts_as [of _ _ cc ori pp pb] ..

lemma pages_loop_acts_as:
  "pages_loop os fs pdf n pages cc ori pp pb acc =
     pages_loop os fs pdf n pages (acts_as_color cc) (acts_as_orientation ori) (acts_as_punch pp)
       (acts_as_binding pb) acc"
proof (induction pages arbitrary: fs n acc)
  case Nil
  show ?case by simp
next
  case (Cons pix rest)
  show ?case
    unfolding pages_loop.simps process_image_acts_as [of _ _ _ cc ori pp pb]
    using Cons.IH by (simp add: Let_def split: prod.split sum.split)
qed

lemma pdf_to_images_acts_as:
  "pdf_to_images os fs pdf cc ori pp pb =
     pdf_to_images os fs pdf (acts_as_color cc) (acts_as_orientation ori) (acts_as_punch pp)
       (acts_as_binding pb)"
  unfolding pdf_to_images_def pages_loop_acts_as [of _ _ _ _ _ cc ori pp pb] ..

lemma after_save_acts_as:
  "after_save os fs upload cc ori pp pb =
     after_save os fs upload (acts_as_color cc) (acts_as_orientation ori) (acts_as_punch pp)
       (acts_as_binding pb)"
  unfolding after_save_def pdf_to_images_acts_as [of _ _ _ cc ori pp pb]
    process_image_acts_as [of _ _ _ cc ori pp pb] ..

subsection \<open>The example platform on plain names\<close>

lemma windows_fields:
  "os_path_join windows = nt_join" "os_path_basename windows = nt_basename"
  "os_path_splitext windows = nt_splitext" "can_write windows = nt_can_write"
  "scan_of windows = solid"
  by (simp_all add: windows_def)

lemmas nt_defs = nt_join_def nt_basename_def nt_splitext_def nt_can_write_def anchored_def
  after_drive_def last_name_def is_sep_def backslash_def UPLOAD_FOLDER_def IMAGE_FOLDER_def

section \<open>The claims about the request handler\<close>

text \<open>
  C5 as stated fails: no option is checked. An upload of a picture named \<open>a.png\<close> with
  \<open>copy_color = sepia\<close> is answered with the preview page, the upload and the processed
  picture are written, and the outcome is the one \<open>color\<close> gives.
\<close>

theorem invalid_option_accepted:
  "snd (upload_file windows Map.empty \<lparr>filename = ''a.png'', file_data = Picture swatch\<rparr>
          ''sepia'' ''portrait'' ''no_hole'' ''no_staple'')
     = Inr (Preview [''/static/processed_a.png''])
   \<and> fst (upload_file windows Map.empty \<lparr>filename = ''a.png'', file_data = Picture swatch\<rparr>
          ''sepia'' ''portrait'' ''no_hole'' ''no_staple'')
        (''uploaded_files'' @ [backslash] @ ''a.png'')
     = Some (Picture swatch)
   \<and> fst (upload_file windows Map.empty \<lparr>filename = ''a.png'', file_data = Picture swatch\<rparr>
          ''sepia'' ''portrait'' ''no_hole'' ''no_staple'')
        (''pdf_images'' @ [backslash] @ ''processed_a.png'')
     = Some (Picture swatch)
   \<and> upload_file windows Map.empty \<lparr>filename = ''a.png'', file_data = Picture swatch\<rparr>
          ''sepia'' ''portrait'' ''no_hole'' ''no_staple''
     = upload_file windows Map.empty \<lparr>filename = ''a.png'', file_data = Picture swatch\<rparr>
          ''color'' ''portrait'' ''no_hole'' ''no_staple''"
  by (simp add: upload_file_def after_save_def write_file_def Let_def lower_def lower_char_def
      shutil_copyfile_def process_image_def Image_open_def img_save_def annotate_def
      generate_html_response_def windows_fields nt_defs)

text \<open>
  C5 amended. For every upload request an option value outside its domain is not rejected:
  the request is carried out, with all its writes and its answer, exactly as with the value
  the field acts as, which for a value outside the domain is the idle value of the field
  (\<open>color\<close>, \<open>portrait\<close>, \<open>no_hole\<close>, \<open>no_staple\<close>).
\<close>

theorem unchecked_options_act_as_idle:
  "upload_file os fs upload cc ori pp pb =
     upload_file os fs upload (acts_as_color cc) (acts_as_orientation ori) (acts_as_punch pp)
       (acts_as_binding pb)
   \<and> (cc \<notin> {''color'', ''black_and_white''} \<longrightarrow> acts_as_color cc = ''color'')
   \<and> (ori \<notin> {''portrait'', ''landscape''} \<longrightarrow> acts_as_orientation ori = ''portrait'')
   \<and> (pp \<notin> {''no_hole'', ''two_holes'', ''three_holes''} \<longrightarrow> acts_as_punch pp = ''no_hole'')
   \<and> (pb \<notin> {''no_staple'', ''corner_staple''} \<longrightarrow> acts_as_binding pb = ''no_staple'')"
proof -
  have "upload_file os fs upload cc ori pp pb =
     upload_file os fs upload (acts_as_color cc) (acts_as_orientation ori) (acts_as_punch pp)
       (acts_as_binding pb)"
    unfolding upload_file_def after_save_acts_as [of _ _ _ cc ori pp pb] ..
  then show ?thesis
    by (simp add: acts_as_color_def acts_as_orientation_def acts_as_punch_def acts_as_binding_def)
qed

theorem unchecked_options_act_as_idle_witness:
  "upload_file windows Map.empty \<lparr>filename = ''a.png'', file_data = Picture swatch\<rparr>
       ''sepia'' ''diagonal'' ''five_holes'' ''glue''
     = upload_file windows Map.empty \<lparr>filename = ''a.png'', file_data = Picture swatch\<rparr>
       ''color'' ''portrait'' ''no_hole'' ''no_staple''"
  using unchecked_options_act_as_idle
    [of windows Map.empty "\<lparr>filename = ''a.png'', file_data = Picture swatch\<rparr>"
        "''sepia''" "''diagonal''" "''five_holes''" "''glue''"]
  by (simp add: acts_as_color_def acts_as_orientation_def acts_as_punch_def acts_as_binding_def)




end
